theory Spec2Isabelle
  imports Main "HOL-Library.Word"
begin

section \<open>Optimistic execution (server/v2/cometbft/oe/optimistic_execution.go)\<close>

text \<open>
  The scheduler runs the finalize-block function of a proposed block in a goroutine and
  lets the consensus driver abort it or wait for its result. The embedding keeps the
  struct of the source as a record, extends it by the part of the Go heap the struct
  points into (channels, cancellable contexts, goroutines), and gives every method as a
  function on that world. The function literal started by \<open>Execute\<close> is cut into the
  atomic steps of its statements, so that the steps of several goroutines and the calls
  of the driver can be interleaved in any order. The driver is one goroutine: its calls
  come one at a time, and a call runs without interruption up to its return or up to the
  operation it blocks at. The logger's output goes to a sink outside the struct and is
  left out; the panics that evaluating a log argument can raise are kept.
\<close>

subsection \<open>Data\<close>

type_synonym bytes = "8 word list"

text \<open>
  The two ABCI requests, with the fields \<open>Execute\<close> copies. \<open>CommitInfo\<close>,
  \<open>Misbehavior\<close> and \<open>time.Time\<close> belong to the ABCI library and are type parameters.
  A nil byte slice and an empty one are both the empty list; \<open>bytes.Equal\<close> does not
  tell them apart.
\<close>

record ('ci, 'mb, 'tm) ProcessProposalRequest =
  Txs :: "bytes list"
  ProposedLastCommit :: 'ci
  Misbehavior :: "'mb list"
  Hash :: bytes
  Height :: "64 word"
  Time :: 'tm
  NextValidatorsHash :: bytes
  ProposerAddress :: bytes

record ('ci, 'mb, 'tm) FinalizeBlockRequest =
  Txs :: "bytes list"
  DecidedLastCommit :: 'ci
  Misbehavior :: "'mb list"
  Hash :: bytes
  Height :: "64 word"
  Time :: 'tm
  NextValidatorsHash :: bytes
  ProposerAddress :: bytes

text \<open>
  \<open>FinalizeBlockResponse\<close>: the pointer \<open>Resp\<close> is an option, the interface value
  \<open>StateChanges\<close> and the transactions are parameters.
\<close>

record ('r, 'sc, 'tx) FinalizeBlockResponse =
  Resp :: "'r option"
  StateChanges :: 'sc
  DecodedTxs :: "'tx list"

text \<open>
  \<open>FinalizeBlockFunc\<close> returns the four values \<open>resp, stateChanges, decodedTxs, err\<close>.
  Of its context argument the function can only observe whether it has been cancelled,
  so the model passes that flag; the request argument is a pointer and may be nil. The
  function is taken to return.
\<close>

type_synonym ('r, 'sc, 'tx, 'e) finalize_result = "'r option \<times> 'sc \<times> 'tx list \<times> 'e option"

type_synonym ('ci, 'mb, 'tm, 'r, 'sc, 'tx, 'e) FinalizeBlockFunc =
  "bool \<Rightarrow> ('ci, 'mb, 'tm) FinalizeBlockRequest option \<Rightarrow> ('r, 'sc, 'tx, 'e) finalize_result"

text \<open>
  Who holds the mutex: the goroutine of the caller or the \<open>i\<close>-th started goroutine.
  A Go mutex does not record its holder; the model does, and no operation looks at who
  it is, only at whether the mutex is locked.
\<close>

datatype thread = Caller | Goroutine nat

text \<open>
  The struct. Pointers and the error are options (\<open>None\<close> is nil); \<open>stopCh\<close> and
  \<open>cancelFunc\<close> refer to a channel and to the context the cancel function closes over;
  \<open>mtx\<close> is \<open>None\<close> when unlocked; \<open>abortRate\<close> is a Go \<open>int\<close> that is only compared.
\<close>

record ('ci, 'mb, 'tm, 'r, 'sc, 'tx, 'e, 'lg) OptimisticExecution =
  finalizeBlockFunc :: "('ci, 'mb, 'tm, 'r, 'sc, 'tx, 'e) FinalizeBlockFunc option"
  logger :: 'lg
  mtx :: "thread option"
  stopCh :: "nat option"
  request :: "('ci, 'mb, 'tm) FinalizeBlockRequest option"
  response :: "('r, 'sc, 'tx) FinalizeBlockResponse option"
  err :: "'e option"
  cancelFunc :: "nat option"
  initialized :: bool
  abortRate :: int

text \<open>
  Where the function literal of \<open>Execute\<close> stands: before the call of the finalize
  function, after it (holding its four results), after \<open>mtx.Lock()\<close>, after the debug
  log, after the assignment of \<open>response\<close> and \<open>err\<close>, after \<open>close(oe.stopCh)\<close>, and
  after \<open>mtx.Unlock()\<close>.
\<close>

datatype 'res pc = Started | Finalized 'res | Locked 'res | Logged 'res | Stored | Closed | Finished

record 'res goroutine =
  g_ctx :: nat
  g_pc :: "'res pc"

text \<open>
  The world: the struct, the closed flag of every channel made so far, the cancelled
  flag of every context derived so far, and the goroutines started so far.
\<close>

record ('ci, 'mb, 'tm, 'r, 'sc, 'tx, 'e, 'lg) world =
  "('ci, 'mb, 'tm, 'r, 'sc, 'tx, 'e, 'lg) OptimisticExecution" +
  chans :: "bool list"
  ctxs :: "bool list"
  goroutines :: "('r, 'sc, 'tx, 'e) finalize_result goroutine list"

text \<open>The receiver of a method: the nil pointer or the pointer to the struct of the world.\<close>

datatype receiver = NilOE | OE

text \<open>
  A call returns a value and the new world, or is suspended at a blocking operation
  (\<open>Lock\<close> of a held mutex, receive from a channel that is not closed) in the world it
  has reached there, or panics.
\<close>

datatype ('a, 's) outcome = Returns 'a 's | Blocks 's | Panics

subsection \<open>Mutex, context and channel\<close>

definition Lock :: "thread \<Rightarrow> ('ci, 'mb, 'tm, 'r, 'sc, 'tx, 'e, 'lg) world
    \<Rightarrow> ('ci, 'mb, 'tm, 'r, 'sc, 'tx, 'e, 'lg) world option" where
  "Lock t w = (if mtx w = None then Some (w\<lparr>mtx := Some t\<rparr>) else None)"

definition Unlock :: "('ci, 'mb, 'tm, 'r, 'sc, 'tx, 'e, 'lg) world
    \<Rightarrow> ('ci, 'mb, 'tm, 'r, 'sc, 'tx, 'e, 'lg) world" where
  "Unlock w = w\<lparr>mtx := None\<rparr>"

text \<open>The cancel function of \<open>context.WithCancel\<close>: marks its context, any number of times.\<close>

definition cancel :: "nat \<Rightarrow> ('ci, 'mb, 'tm, 'r, 'sc, 'tx, 'e, 'lg) world
    \<Rightarrow> ('ci, 'mb, 'tm, 'r, 'sc, 'tx, 'e, 'lg) world" where
  "cancel c w = w\<lparr>ctxs := (ctxs w)[c := True]\<rparr>"

text \<open>
  \<open><-oe.stopCh\<close>: a receive from the nil channel never returns, one from an open channel
  waits for the close, one from a closed channel returns at once.
\<close>

definition recv_stopCh :: "('ci, 'mb, 'tm, 'r, 'sc, 'tx, 'e, 'lg) world
    \<Rightarrow> (unit, ('ci, 'mb, 'tm, 'r, 'sc, 'tx, 'e, 'lg) world) outcome" where
  "recv_stopCh w =
     (case stopCh w of
        None \<Rightarrow> Blocks w
      | Some ch \<Rightarrow> if chans w ! ch then Returns () w else Blocks w)"

subsection \<open>Construction\<close>

text \<open>
  \<open>logger.With(log.ModuleKey, "oe")\<close> belongs to the logging library and is the
  parameter \<open>with_module\<close>. An option is a function on the new struct.
\<close>

definition WithAbortRate :: "int \<Rightarrow> ('ci, 'mb, 'tm, 'r, 'sc, 'tx, 'e, 'lg) world
    \<Rightarrow> ('ci, 'mb, 'tm, 'r, 'sc, 'tx, 'e, 'lg) world" where
  "WithAbortRate rate oe = oe\<lparr>abortRate := rate\<rparr>"

definition NewOptimisticExecution :: "('lg \<Rightarrow> 'lg) \<Rightarrow> 'lg
    \<Rightarrow> ('ci, 'mb, 'tm, 'r, 'sc, 'tx, 'e) FinalizeBlockFunc option
    \<Rightarrow> (('ci, 'mb, 'tm, 'r, 'sc, 'tx, 'e, 'lg) world
          \<Rightarrow> ('ci, 'mb, 'tm, 'r, 'sc, 'tx, 'e, 'lg) world) list
    \<Rightarrow> ('ci, 'mb, 'tm, 'r, 'sc, 'tx, 'e, 'lg) world" where
  "NewOptimisticExecution with_module lg fn opts =
     fold (\<lambda>opt oe. opt oe) opts
       \<lparr>finalizeBlockFunc = fn, logger = with_module lg, mtx = None, stopCh = None,
        request = None, response = None, err = None, cancelFunc = None,
        initialized = False, abortRate = 0, chans = [], ctxs = [], goroutines = []\<rparr>"

subsection \<open>Methods\<close>

definition Reset :: "receiver \<Rightarrow> ('ci, 'mb, 'tm, 'r, 'sc, 'tx, 'e, 'lg) world
    \<Rightarrow> (unit, ('ci, 'mb, 'tm, 'r, 'sc, 'tx, 'e, 'lg) world) outcome" where
  "Reset oe w =
     (case oe of
        NilOE \<Rightarrow> Panics
      | OE \<Rightarrow>
          (case Lock Caller w of
             None \<Rightarrow> Blocks w
           | Some w1 \<Rightarrow>
               Returns () (Unlock (w1\<lparr>request := None, response := None, err := None,
                                       initialized := False\<rparr>))))"

definition Initialized :: "receiver \<Rightarrow> ('ci, 'mb, 'tm, 'r, 'sc, 'tx, 'e, 'lg) world
    \<Rightarrow> (bool, ('ci, 'mb, 'tm, 'r, 'sc, 'tx, 'e, 'lg) world) outcome" where
  "Initialized oe w =
     (case oe of
        NilOE \<Rightarrow> Returns False w
      | OE \<Rightarrow>
          (case Lock Caller w of
             None \<Rightarrow> Blocks w
           | Some w1 \<Rightarrow> Returns (initialized w1) (Unlock w1)))"

text \<open>
  \<open>Execute\<close> makes the channel, copies the request (a nil \<open>req\<close> panics at \<open>req.Txs\<close>),
  derives the context, and starts the goroutine, all under the mutex. The debug log
  reads only \<open>req\<close> and writes to the logger's sink, which is not part of the world.
\<close>

definition Execute :: "receiver \<Rightarrow> ('ci, 'mb, 'tm) ProcessProposalRequest option
    \<Rightarrow> ('ci, 'mb, 'tm, 'r, 'sc, 'tx, 'e, 'lg) world
    \<Rightarrow> (unit, ('ci, 'mb, 'tm, 'r, 'sc, 'tx, 'e, 'lg) world) outcome" where
  "Execute oe req w =
     (case oe of
        NilOE \<Rightarrow> Panics
      | OE \<Rightarrow>
          (case Lock Caller w of
             None \<Rightarrow> Blocks w
           | Some w1 \<Rightarrow>
               (let w2 = w1\<lparr>stopCh := Some (length (chans w1)), chans := chans w1 @ [False]\<rparr>
                in case req of
                     None \<Rightarrow> Panics
                   | Some rq \<Rightarrow>
                       (let w3 = w2\<lparr>request := Some
                                  \<lparr>Txs = ProcessProposalRequest.Txs rq,
                                   DecidedLastCommit = ProposedLastCommit rq,
                                   Misbehavior = ProcessProposalRequest.Misbehavior rq,
                                   Hash = ProcessProposalRequest.Hash rq,
                                   Height = ProcessProposalRequest.Height rq,
                                   Time = ProcessProposalRequest.Time rq,
                                   NextValidatorsHash = ProcessProposalRequest.NextValidatorsHash rq,
                                   ProposerAddress = ProcessProposalRequest.ProposerAddress rq\<rparr>\<rparr>;
                            c = length (ctxs w3);
                            w4 = w3\<lparr>ctxs := ctxs w3 @ [False]\<rparr>;
                            w5 = w4\<lparr>cancelFunc := Some c\<rparr>;
                            w6 = w5\<lparr>initialized := True\<rparr>;
                            w7 = w6\<lparr>goroutines := goroutines w6 @ [\<lparr>g_ctx = c, g_pc = Started\<rparr>]\<rparr>
                        in Returns () (Unlock w7)))))"

text \<open>
  \<open>AbortIfNeeded\<close>; \<open>r\<close> is the value \<open>rand.Intn(100)\<close> returns when it is called. A nil
  \<open>request\<close> panics at \<open>oe.request.Hash\<close>, a nil \<open>cancelFunc\<close> at its call.
\<close>

definition AbortIfNeeded :: "receiver \<Rightarrow> bytes \<Rightarrow> int
    \<Rightarrow> ('ci, 'mb, 'tm, 'r, 'sc, 'tx, 'e, 'lg) world
    \<Rightarrow> (bool, ('ci, 'mb, 'tm, 'r, 'sc, 'tx, 'e, 'lg) world) outcome" where
  "AbortIfNeeded oe reqHash r w =
     (case oe of
        NilOE \<Rightarrow> Returns False w
      | OE \<Rightarrow>
          (case Lock Caller w of
             None \<Rightarrow> Blocks w
           | Some w1 \<Rightarrow>
               (case request w1 of
                  None \<Rightarrow> Panics
                | Some rq \<Rightarrow>
                    if Hash rq \<noteq> reqHash then
                      (case cancelFunc w1 of
                         None \<Rightarrow> Panics
                       | Some c \<Rightarrow> Returns True (Unlock (cancel c w1)))
                    else if 0 < abortRate w1 \<and> r < abortRate w1 then
                      (case cancelFunc w1 of
                         None \<Rightarrow> Panics
                       | Some c \<Rightarrow> Returns True (Unlock (cancel c w1)))
                    else Returns False (Unlock w1))))"

definition Abort :: "receiver \<Rightarrow> ('ci, 'mb, 'tm, 'r, 'sc, 'tx, 'e, 'lg) world
    \<Rightarrow> (unit, ('ci, 'mb, 'tm, 'r, 'sc, 'tx, 'e, 'lg) world) outcome" where
  "Abort oe w =
     (case oe of
        NilOE \<Rightarrow> Returns () w
      | OE \<Rightarrow>
          (case cancelFunc w of
             None \<Rightarrow> Returns () w
           | Some c \<Rightarrow> recv_stopCh (cancel c w)))"

definition WaitResult :: "receiver \<Rightarrow> ('ci, 'mb, 'tm, 'r, 'sc, 'tx, 'e, 'lg) world
    \<Rightarrow> (('r, 'sc, 'tx) FinalizeBlockResponse option \<times> 'e option,
        ('ci, 'mb, 'tm, 'r, 'sc, 'tx, 'e, 'lg) world) outcome" where
  "WaitResult oe w =
     (case oe of
        NilOE \<Rightarrow> Panics
      | OE \<Rightarrow>
          (case recv_stopCh w of
             Returns u w1 \<Rightarrow> Returns (response w1, err w1) w1
           | Blocks w1 \<Rightarrow> Blocks w1
           | Panics \<Rightarrow> Panics))"

subsection \<open>The goroutine started by Execute\<close>

text \<open>
  One step of the \<open>i\<close>-th goroutine. The call of the finalize function reads
  \<open>oe.finalizeBlockFunc\<close> and \<open>oe.request\<close> without the mutex and sees the context as
  it is at that moment. The debug log dereferences \<open>oe.request\<close> (a panic when it is
  nil); the close reads \<open>oe.stopCh\<close> then, and closing the nil channel or a closed one
  panics; unlocking a mutex that is not locked is fatal. A goroutine that has finished,
  or that does not exist, has no step.
\<close>

definition at_pc :: "nat \<Rightarrow> ('r, 'sc, 'tx, 'e) finalize_result pc
    \<Rightarrow> ('ci, 'mb, 'tm, 'r, 'sc, 'tx, 'e, 'lg) world
    \<Rightarrow> ('ci, 'mb, 'tm, 'r, 'sc, 'tx, 'e, 'lg) world" where
  "at_pc i p w = w\<lparr>goroutines := (goroutines w)[i := (goroutines w ! i)\<lparr>g_pc := p\<rparr>]\<rparr>"

definition goroutine_step :: "nat \<Rightarrow> ('ci, 'mb, 'tm, 'r, 'sc, 'tx, 'e, 'lg) world
    \<Rightarrow> (unit, ('ci, 'mb, 'tm, 'r, 'sc, 'tx, 'e, 'lg) world) outcome" where
  "goroutine_step i w =
     (if length (goroutines w) \<le> i then Blocks w
      else
        (case g_pc (goroutines w ! i) of
           Started \<Rightarrow>
             (case finalizeBlockFunc w of
                None \<Rightarrow> Panics
              | Some fn \<Rightarrow>
                  Returns () (at_pc i (Finalized (fn (ctxs w ! g_ctx (goroutines w ! i)) (request w))) w))
         | Finalized res \<Rightarrow>
             (case Lock (Goroutine i) w of
                None \<Rightarrow> Blocks w
              | Some w1 \<Rightarrow> Returns () (at_pc i (Locked res) w1))
         | Locked res \<Rightarrow>
             (case request w of
                None \<Rightarrow> Panics
              | Some rq \<Rightarrow> Returns () (at_pc i (Logged res) w))
         | Logged res \<Rightarrow>
             (case res of
                (resp, stateChanges, decodedTxs, e) \<Rightarrow>
                  Returns () (at_pc i Stored
                    (w\<lparr>response := Some \<lparr>Resp = resp, StateChanges = stateChanges,
                                          DecodedTxs = decodedTxs\<rparr>,
                       err := e\<rparr>)))
         | Stored \<Rightarrow>
             (case stopCh w of
                None \<Rightarrow> Panics
              | Some ch \<Rightarrow>
                  if chans w ! ch then Panics
                  else Returns () (at_pc i Closed (w\<lparr>chans := (chans w)[ch := True]\<rparr>)))
         | Closed \<Rightarrow>
             (if mtx w = None then Panics else Returns () (at_pc i Finished (Unlock w)))
         | Finished \<Rightarrow> Blocks w))"

subsection \<open>Interleavings\<close>

text \<open>
  An event is a step of a goroutine or a call of the driver on the struct. A call that
  is suspended leaves the world it has reached (for \<open>Abort\<close>, the context is cancelled
  by then) and the schedule goes on; a panic ends the program.
\<close>

datatype ('ci, 'mb, 'tm) event =
    Go nat
  | CallInitialized
  | CallReset
  | CallExecute "('ci, 'mb, 'tm) ProcessProposalRequest option"
  | CallAbortIfNeeded bytes int
  | CallAbort
  | CallWaitResult

fun world_after :: "('a, 's) outcome \<Rightarrow> 's option" where
  "world_after (Returns x s) = Some s"
| "world_after (Blocks s) = Some s"
| "world_after Panics = None"

fun occur :: "('ci, 'mb, 'tm) event \<Rightarrow> ('ci, 'mb, 'tm, 'r, 'sc, 'tx, 'e, 'lg) world
    \<Rightarrow> ('ci, 'mb, 'tm, 'r, 'sc, 'tx, 'e, 'lg) world option" where
  "occur (Go i) w = world_after (goroutine_step i w)"
| "occur CallInitialized w = world_after (Initialized OE w)"
| "occur CallReset w = world_after (Reset OE w)"
| "occur (CallExecute req) w = world_after (Execute OE req w)"
| "occur (CallAbortIfNeeded h r) w = world_after (AbortIfNeeded OE h r w)"
| "occur CallAbort w = world_after (Abort OE w)"
| "occur CallWaitResult w = world_after (WaitResult OE w)"

fun run :: "('ci, 'mb, 'tm) event list \<Rightarrow> ('ci, 'mb, 'tm, 'r, 'sc, 'tx, 'e, 'lg) world
    \<Rightarrow> ('ci, 'mb, 'tm, 'r, 'sc, 'tx, 'e, 'lg) world option" where
  "run [] w = Some w"
| "run (e # es) w = (case occur e w of None \<Rightarrow> None | Some w1 \<Rightarrow> run es w1)"

text \<open>
  The events that may occur while a run is outstanding: everything but a second
  \<open>Execute\<close> and a \<open>Reset\<close>, which the contract of the scheduler reserves for the time
  after the run.
\<close>

fun during_run :: "('ci, 'mb, 'tm) event \<Rightarrow> bool" where
  "during_run CallReset = False"
| "during_run (CallExecute req) = False"
| "during_run e = True"

text \<open>No run is outstanding: the mutex is free and every goroutine has finished.\<close>

definition quiescent :: "('ci, 'mb, 'tm, 'r, 'sc, 'tx, 'e, 'lg) world \<Rightarrow> bool" where
  "quiescent w \<longleftrightarrow> mtx w = None \<and> (\<forall>g \<in> set (goroutines w). g_pc g = Finished)"

text \<open>The request \<open>Execute\<close> stores for a proposal.\<close>

definition snapshot :: "('ci, 'mb, 'tm) ProcessProposalRequest \<Rightarrow> ('ci, 'mb, 'tm) FinalizeBlockRequest" where
  "snapshot rq =
     \<lparr>Txs = ProcessProposalRequest.Txs rq,
      DecidedLastCommit = ProposedLastCommit rq,
      Misbehavior = ProcessProposalRequest.Misbehavior rq,
      Hash = ProcessProposalRequest.Hash rq,
      Height = ProcessProposalRequest.Height rq,
      Time = ProcessProposalRequest.Time rq,
      NextValidatorsHash = ProcessProposalRequest.NextValidatorsHash rq,
      ProposerAddress = ProcessProposalRequest.ProposerAddress rq\<rparr>"

text \<open>The response the goroutine builds from the results of the finalize function.\<close>

definition wrap :: "('r, 'sc, 'tx, 'e) finalize_result \<Rightarrow> ('r, 'sc, 'tx) FinalizeBlockResponse" where
  "wrap res = (case res of (resp, stateChanges, decodedTxs, e) \<Rightarrow>
     \<lparr>Resp = resp, StateChanges = stateChanges, DecodedTxs = decodedTxs\<rparr>)"

definition err_of :: "('r, 'sc, 'tx, 'e) finalize_result \<Rightarrow> 'e option" where
  "err_of res = (case res of (resp, stateChanges, decodedTxs, e) \<Rightarrow> e)"


subsection \<open>The states of one run\<close>

text \<open>
  \<open>stored\<close>: the struct holds the response and the error built from one result of the
  finalize function on the stored request. \<open>run_state\<close> describes the worlds of a single
  outstanding run: goroutine \<open>n\<close> is the only one that has not finished, the struct
  still points to its channel \<open>ch\<close>, its context \<open>c\<close> and its request, and the mutex,
  the channel and the stored result are as the place of the goroutine requires.
\<close>

definition stored :: "('ci, 'mb, 'tm, 'r, 'sc, 'tx, 'e) FinalizeBlockFunc
    \<Rightarrow> ('ci, 'mb, 'tm) FinalizeBlockRequest
    \<Rightarrow> ('ci, 'mb, 'tm, 'r, 'sc, 'tx, 'e, 'lg) world \<Rightarrow> bool" where
  "stored f rq w \<longleftrightarrow>
     (\<exists>b. response w = Some (wrap (f b (Some rq))) \<and> err w = err_of (f b (Some rq)))"

definition run_state :: "('ci, 'mb, 'tm, 'r, 'sc, 'tx, 'e) FinalizeBlockFunc
    \<Rightarrow> ('ci, 'mb, 'tm) FinalizeBlockRequest \<Rightarrow> nat \<Rightarrow> nat \<Rightarrow> nat
    \<Rightarrow> ('ci, 'mb, 'tm, 'r, 'sc, 'tx, 'e, 'lg) world \<Rightarrow> bool" where
  "run_state f rq n c ch w \<longleftrightarrow>
     finalizeBlockFunc w = Some f \<and> request w = Some rq \<and>
     stopCh w = Some ch \<and> cancelFunc w = Some c \<and>
     ch < length (chans w) \<and> c < length (ctxs w) \<and>
     n < length (goroutines w) \<and> g_ctx (goroutines w ! n) = c \<and>
     (\<forall>i < length (goroutines w). i \<noteq> n \<longrightarrow> g_pc (goroutines w ! i) = Finished) \<and>
     (case g_pc (goroutines w ! n) of
        Started \<Rightarrow> mtx w = None \<and> \<not> chans w ! ch
      | Finalized res \<Rightarrow> mtx w = None \<and> \<not> chans w ! ch \<and> (\<exists>b. res = f b (Some rq))
      | Locked res \<Rightarrow> mtx w = Some (Goroutine n) \<and> \<not> chans w ! ch \<and> (\<exists>b. res = f b (Some rq))
      | Logged res \<Rightarrow> mtx w = Some (Goroutine n) \<and> \<not> chans w ! ch \<and> (\<exists>b. res = f b (Some rq))
      | Stored \<Rightarrow> mtx w = Some (Goroutine n) \<and> \<not> chans w ! ch \<and> stored f rq w
      | Closed \<Rightarrow> mtx w = Some (Goroutine n) \<and> chans w ! ch \<and> stored f rq w
      | Finished \<Rightarrow> mtx w = None \<and> chans w ! ch \<and> stored f rq w)"


fun progress :: "'res pc \<Rightarrow> nat" where
  "progress Started = 0"
| "progress (Finalized res) = 1"
| "progress (Locked res) = 2"
| "progress (Logged res) = 3"
| "progress Stored = 4"
| "progress Closed = 5"
| "progress Finished = 6"

subsection \<open>Example values\<close>

text \<open>
  A proposal, a finalize function that reports a cancelled context as an error, the new
  scheduler, and the worlds it reaches: after \<open>Execute\<close>, after the finalize function has
  returned, after the goroutine has closed the channel (still holding the mutex), and
  after a run that was aborted before the finalize function looked at its context.
\<close>

definition example_request :: "(nat, nat, nat) ProcessProposalRequest" where
  "example_request =
     \<lparr>ProcessProposalRequest.Txs = [[1, 2]], ProposedLastCommit = 3,
      ProcessProposalRequest.Misbehavior = [4], ProcessProposalRequest.Hash = [0xAB],
      ProcessProposalRequest.Height = 5, ProcessProposalRequest.Time = 6,
      ProcessProposalRequest.NextValidatorsHash = [7],
      ProcessProposalRequest.ProposerAddress = [8]\<rparr>"

definition example_finalize :: "(nat, nat, nat, nat, nat, nat, string) FinalizeBlockFunc" where
  "example_finalize cancelled rq =
     (if cancelled then (None, 0, [], Some ''context canceled'') else (Some 1, 2, [3], None))"

definition example_new :: "(nat, nat, nat, nat, nat, nat, string, string) world" where
  "example_new = NewOptimisticExecution (\<lambda>l. l @ '' module=oe'') ''log'' (Some example_finalize) []"

definition example_started :: "(nat, nat, nat, nat, nat, nat, string, string) world" where
  "example_started =
     \<lparr>finalizeBlockFunc = Some example_finalize, logger = ''log module=oe'', mtx = None,
      stopCh = Some 0, request = Some (snapshot example_request), response = None, err = None,
      cancelFunc = Some 0, initialized = True, abortRate = 0, chans = [False], ctxs = [False],
      goroutines = [\<lparr>g_ctx = 0, g_pc = Started\<rparr>]\<rparr>"

definition example_finalized :: "(nat, nat, nat, nat, nat, nat, string, string) world" where
  "example_finalized =
     example_started\<lparr>goroutines := [\<lparr>g_ctx = 0, g_pc = Finalized (Some 1, 2, [3], None)\<rparr>]\<rparr>"

definition example_closed :: "(nat, nat, nat, nat, nat, nat, string, string) world" where
  "example_closed =
     example_started\<lparr>mtx := Some (Goroutine 0),
       response := Some \<lparr>Resp = Some 1, StateChanges = 2, DecodedTxs = [3]\<rparr>,
       chans := [True], goroutines := [\<lparr>g_ctx = 0, g_pc = Closed\<rparr>]\<rparr>"

definition example_aborted :: "(nat, nat, nat, nat, nat, nat, string, string) world" where
  "example_aborted =
     example_started\<lparr>response := Some \<lparr>Resp = None, StateChanges = 0, DecodedTxs = []\<rparr>,
       err := Some ''context canceled'', chans := [True], ctxs := [True],
       goroutines := [\<lparr>g_ctx = 0, g_pc = Finished\<rparr>]\<rparr>"

section \<open>Facts about the operations\<close>

subsection \<open>A single run\<close>

lemma Execute_starts_run:
  assumes "quiescent w0" and "finalizeBlockFunc w0 = Some f"
  shows "\<exists>w1. Execute OE (Some req) w0 = Returns () w1 \<and>
     run_state f (snapshot req) (length (goroutines w0)) (length (ctxs w0)) (length (chans w0)) w1"
  using assms
  by (auto simp add: quiescent_def Execute_def Lock_def Unlock_def run_state_def snapshot_def
      Let_def nth_append)

lemma run_state_cancel:
  "run_state f rq n c ch w \<Longrightarrow> run_state f rq n c ch (cancel c' w)"
  by (auto simp add: run_state_def cancel_def stored_def split: pc.splits)

lemma run_state_step_other:
  assumes "run_state f rq n c ch w" and "i \<noteq> n"
  shows "goroutine_step i w = Blocks w"
  using assms by (auto simp add: run_state_def goroutine_step_def)

lemma step_Logged:
  assumes "i < length (goroutines w)" and "g_pc (goroutines w ! i) = Logged res"
  shows "goroutine_step i w =
     Returns () (at_pc i Stored (w\<lparr>response := Some (wrap res), err := err_of res\<rparr>))"
  using assms by (cases res) (simp add: goroutine_step_def wrap_def err_of_def)

lemma run_state_step:
  assumes "run_state f rq n c ch w" and "goroutine_step n w = Returns u w1"
  shows "run_state f rq n c ch w1"
proof (cases "g_pc (goroutines w ! n)")
  case Started
  with assms show ?thesis
    by (auto simp add: run_state_def goroutine_step_def at_pc_def)
next
  case (Finalized res)
  with assms show ?thesis
    by (auto simp add: run_state_def goroutine_step_def at_pc_def Lock_def stored_def)
next
  case (Locked res)
  with assms show ?thesis
    by (auto simp add: run_state_def goroutine_step_def at_pc_def stored_def)
next
  case (Logged res)
  with assms show ?thesis
    by (auto simp add: run_state_def step_Logged at_pc_def stored_def)
next
  case Stored
  with assms show ?thesis
    by (auto simp add: run_state_def goroutine_step_def at_pc_def stored_def split: if_splits)
next
  case Closed
  with assms show ?thesis
    by (auto simp add: run_state_def goroutine_step_def at_pc_def Unlock_def stored_def split: if_splits)
next
  case Finished
  with assms show ?thesis
    by (auto simp add: run_state_def goroutine_step_def)
qed


lemma step_Blocks: "goroutine_step i w = Blocks w1 \<Longrightarrow> w1 = w"
  by (auto simp add: goroutine_step_def Lock_def split: pc.splits option.splits if_splits prod.splits)

lemma mtx_None_same [simp]: "mtx w = None \<Longrightarrow> w\<lparr>mtx := None\<rparr> = w"
  by (cases w) simp

lemma Initialized_OE:
  "Initialized OE w = (if mtx w = None then Returns (initialized w) w else Blocks w)"
  by (simp add: Initialized_def Lock_def Unlock_def)

lemma AbortIfNeeded_OE:
  assumes "request w = Some rq" and "cancelFunc w = Some c"
  shows "AbortIfNeeded OE h r w =
     (if mtx w \<noteq> None then Blocks w
      else if Hash rq \<noteq> h \<or> (0 < abortRate w \<and> r < abortRate w)
           then Returns True (cancel c w)
           else Returns False w)"
  using assms by (simp add: AbortIfNeeded_def Lock_def Unlock_def cancel_def)

lemma recv_stopCh_cases: "recv_stopCh w = Returns () w \<or> recv_stopCh w = Blocks w"
  by (simp add: recv_stopCh_def split: option.splits)

lemma run_state_occur:
  assumes "run_state f rq n c ch w" and "during_run e" and "occur e w = Some w1"
  shows "run_state f rq n c ch w1"
proof (cases e)
  case (Go i)
  show ?thesis
  proof (cases "i = n")
    case True
    with assms Go show ?thesis
      by (cases "goroutine_step n w") (auto dest: run_state_step step_Blocks)
  next
    case False
    with assms Go show ?thesis
      by (simp add: run_state_step_other)
  qed
next
  case CallInitialized
  with assms show ?thesis
    by (auto simp add: Initialized_OE split: if_splits)
next
  case CallReset
  with assms show ?thesis by simp
next
  case (CallExecute req)
  with assms show ?thesis by simp
next
  case (CallAbortIfNeeded h r)
  from assms(1) have "request w = Some rq" and "cancelFunc w = Some c"
    by (simp_all add: run_state_def)
  with assms CallAbortIfNeeded show ?thesis
    by (auto simp add: AbortIfNeeded_OE run_state_cancel split: if_splits)
next
  case CallAbort
  from assms(1) have "cancelFunc w = Some c"
    by (simp add: run_state_def)
  with assms CallAbort recv_stopCh_cases [of "cancel c w"] show ?thesis
    by (auto simp add: Abort_def run_state_cancel)
next
  case CallWaitResult
  with assms recv_stopCh_cases [of w] show ?thesis
    by (auto simp add: WaitResult_def)
qed

lemma run_state_run:
  assumes "run_state f rq n c ch w" and "\<forall>e \<in> set es. during_run e" and "run es w = Some w1"
  shows "run_state f rq n c ch w1"
  using assms
proof (induction es arbitrary: w)
  case Nil
  then show ?case by simp
next
  case (Cons e es)
  then show ?case
    by (auto split: option.splits dest: run_state_occur)
qed

subsection \<open>Methods on the struct, and the mutex\<close>

lemma Reset_OE:
  "Reset OE w =
     (if mtx w = None
      then Returns () (w\<lparr>request := None, response := None, err := None, initialized := False\<rparr>)
      else Blocks w)"
  by (simp add: Reset_def Lock_def Unlock_def)

lemma Abort_OE:
  "Abort OE w = (case cancelFunc w of None \<Rightarrow> Returns () w | Some c \<Rightarrow> recv_stopCh (cancel c w))"
  by (simp add: Abort_def)

lemma WaitResult_OE:
  "WaitResult OE w =
     (case stopCh w of
        None \<Rightarrow> Blocks w
      | Some ch \<Rightarrow> if chans w ! ch then Returns (response w, err w) w else Blocks w)"
  by (simp add: WaitResult_def recv_stopCh_def split: option.splits)





lemma Execute_free:
  "mtx w = None \<Longrightarrow> Execute OE (Some rq) w =
     Returns () (w\<lparr>stopCh := Some (length (chans w)), chans := chans w @ [False],
                    request := Some (snapshot rq), ctxs := ctxs w @ [False],
                    cancelFunc := Some (length (ctxs w)), initialized := True,
                    goroutines := goroutines w @ [\<lparr>g_ctx = length (ctxs w), g_pc = Started\<rparr>]\<rparr>)"
  by (simp add: Execute_def Lock_def Unlock_def snapshot_def Let_def)




lemma fold_WithAbortRate:
  "fold (\<lambda>opt oe. opt oe) (map WithAbortRate rates) w = w\<lparr>abortRate := last (abortRate w # rates)\<rparr>"
  by (induction rates arbitrary: w) (simp_all add: WithAbortRate_def)

lemma New_fields:
  "NewOptimisticExecution wm lg fn (map WithAbortRate rates) =
     \<lparr>finalizeBlockFunc = fn, logger = wm lg, mtx = None, stopCh = None,
      request = None, response = None, err = None, cancelFunc = None,
      initialized = False, abortRate = last (0 # rates), chans = [], ctxs = [], goroutines = []\<rparr>"
  by (simp add: NewOptimisticExecution_def fold_WithAbortRate)


subsection \<open>The goroutine of a run finishes\<close>

lemma run_state_enabled:
  assumes "run_state f rq n c ch w" and "g_pc (goroutines w ! n) \<noteq> Finished"
  shows "\<exists>w1. goroutine_step n w = Returns () w1 \<and>
     progress (g_pc (goroutines w1 ! n)) = Suc (progress (g_pc (goroutines w ! n)))"
proof (cases "g_pc (goroutines w ! n)")
  case (Logged res)
  with assms show ?thesis
    by (auto simp add: run_state_def step_Logged at_pc_def)
qed (use assms in \<open>auto simp add: run_state_def goroutine_step_def at_pc_def Lock_def Unlock_def\<close>)

lemma progress_Finished: "6 \<le> progress p \<Longrightarrow> p = Finished"
  by (cases p) simp_all

lemma run_state_finishes:
  assumes "run_state f rq n c ch w" and "6 \<le> progress (g_pc (goroutines w ! n)) + k"
  shows "\<exists>w1. run (replicate k (Go n)) w = Some w1 \<and> g_pc (goroutines w1 ! n) = Finished"
  using assms
proof (induction k arbitrary: w)
  case 0
  then show ?case by (simp add: progress_Finished)
next
  case (Suc k)
  show ?case
  proof (cases "g_pc (goroutines w ! n) = Finished")
    case True
    with Suc.prems(1) have "goroutine_step n w = Blocks w"
      by (simp add: goroutine_step_def run_state_def)
    moreover from True Suc.prems(1) have "\<exists>w1. run (replicate k (Go n)) w = Some w1 \<and> g_pc (goroutines w1 ! n) = Finished"
      by (intro Suc.IH) simp_all
    ultimately show ?thesis by simp
  next
    case False
    from run_state_enabled [OF Suc.prems(1) False] obtain w1 where
      s: "goroutine_step n w = Returns () w1" and
      p: "progress (g_pc (goroutines w1 ! n)) = Suc (progress (g_pc (goroutines w ! n)))"
      by blast
    from Suc.prems(1) s have "run_state f rq n c ch w1"
      by (rule run_state_step)
    moreover from p Suc.prems(2) have "6 \<le> progress (g_pc (goroutines w1 ! n)) + k"
      by simp
    ultimately have "\<exists>w2. run (replicate k (Go n)) w1 = Some w2 \<and> g_pc (goroutines w2 ! n) = Finished"
      by (rule Suc.IH)
    with s show ?thesis by simp
  qed
qed

lemma run_state_closed_iff:
  assumes "run_state f rq n c ch w"
  shows "chans w ! ch \<longleftrightarrow> g_pc (goroutines w ! n) = Closed \<or> g_pc (goroutines w ! n) = Finished"
  using assms by (auto simp add: run_state_def split: pc.splits)

lemma run_state_closed_stored:
  assumes "run_state f rq n c ch w" and "chans w ! ch"
  shows "stored f rq w"
  using assms by (auto simp add: run_state_def split: pc.splits)

lemma run_Execute:
  assumes "quiescent w0" and "finalizeBlockFunc w0 = Some f"
    and "\<forall>e \<in> set es. during_run e"
    and "run (CallExecute (Some req) # es) w0 = Some w"
  shows "run_state f (snapshot req) (length (goroutines w0)) (length (ctxs w0)) (length (chans w0)) w"
proof -
  from Execute_starts_run [OF assms(1,2), of req] obtain w1 where
    e: "Execute OE (Some req) w0 = Returns () w1" and
    r: "run_state f (snapshot req) (length (goroutines w0)) (length (ctxs w0)) (length (chans w0)) w1"
    by blast
  from e assms(4) have "run es w1 = Some w" by simp
  with r assms(3) show ?thesis by (rule run_state_run)
qed

text \<open>The steps of a goroutine leave the contexts as they are.\<close>

lemma step_ctxs: "goroutine_step i w = Returns u w1 \<Longrightarrow> ctxs w1 = ctxs w"
  by (auto simp add: goroutine_step_def at_pc_def Lock_def Unlock_def
      split: pc.splits option.splits if_splits prod.splits)

lemma run_Go_ctxs: "run (replicate k (Go i)) w = Some w1 \<Longrightarrow> ctxs w1 = ctxs w"
proof (induction k arbitrary: w)
  case 0
  then show ?case by simp
next
  case (Suc k)
  then show ?case
    by (cases "goroutine_step i w") (auto dest: step_ctxs step_Blocks)
qed

lemma cancel_same: "c < length (ctxs w) \<Longrightarrow> ctxs w ! c \<Longrightarrow> cancel c w = w"
  by (cases w) (simp add: cancel_def list_update_same_conv)

subsection \<open>The result stays once the channel is closed\<close>

lemma closed_result_occur:
  assumes "run_state f rq n c ch w" and "chans w ! ch" and "during_run e" and "occur e w = Some w1"
  shows "chans w1 ! ch \<and> response w1 = response w \<and> err w1 = err w"
proof (cases e)
  case (Go i)
  show ?thesis
  proof (cases "i = n")
    case True
    from run_state_closed_iff [OF assms(1)] assms(2)
    have "g_pc (goroutines w ! n) = Closed \<or> g_pc (goroutines w ! n) = Finished"
      by simp
    with assms Go True show ?thesis
      by (auto simp add: run_state_def goroutine_step_def at_pc_def Unlock_def split: if_splits)
  next
    case False
    with assms Go show ?thesis
      by (simp add: run_state_step_other)
  qed
next
  case CallInitialized
  with assms show ?thesis
    by (auto simp add: Initialized_OE split: if_splits)
next
  case CallReset
  with assms show ?thesis by simp
next
  case (CallExecute req)
  with assms show ?thesis by simp
next
  case (CallAbortIfNeeded h r)
  from assms(1) have "request w = Some rq" and "cancelFunc w = Some c"
    by (simp_all add: run_state_def)
  with assms CallAbortIfNeeded show ?thesis
    by (auto simp add: AbortIfNeeded_OE cancel_def split: if_splits)
next
  case CallAbort
  from assms(1) have "cancelFunc w = Some c"
    by (simp add: run_state_def)
  with assms CallAbort recv_stopCh_cases [of "cancel c w"] show ?thesis
    by (auto simp add: Abort_def cancel_def)
next
  case CallWaitResult
  with assms recv_stopCh_cases [of w] show ?thesis
    by (auto simp add: WaitResult_def)
qed

lemma closed_result_run:
  assumes "run_state f rq n c ch w" and "chans w ! ch" and "\<forall>e \<in> set es. during_run e"
    and "run es w = Some w1"
  shows "chans w1 ! ch \<and> response w1 = response w \<and> err w1 = err w"
  using assms
proof (induction es arbitrary: w)
  case Nil
  then show ?case by simp
next
  case (Cons e es)
  from Cons.prems obtain w2 where o: "occur e w = Some w2" and r: "run es w2 = Some w1"
    by (auto split: option.splits)
  from Cons.prems o have s: "run_state f rq n c ch w2"
    by (auto dest: run_state_occur)
  from Cons.prems o have k: "chans w2 ! ch \<and> response w2 = response w \<and> err w2 = err w"
    by (intro closed_result_occur [of f rq n c ch w e w2]) simp_all
  with Cons.IH [OF s _ _ r] Cons.prems(3) show ?case
    by simp
qed

subsection \<open>The example runs\<close>

lemmas example_defs =
  example_new_def example_started_def example_finalized_def example_closed_def
  example_aborted_def example_request_def example_finalize_def snapshot_def
  NewOptimisticExecution_def

lemmas step_defs =
  goroutine_step_def at_pc_def Lock_def Unlock_def cancel_def recv_stopCh_def
  Execute_def Abort_def WaitResult_def Reset_def Initialized_def AbortIfNeeded_def

lemma example_run_started:
  "run [CallExecute (Some example_request)] example_new = Some example_started"
  by (simp add: example_defs step_defs)

lemma example_run_finalized:
  "run [CallExecute (Some example_request), Go 0] example_new = Some example_finalized"
  by (simp add: example_defs step_defs)

lemma example_run_closed:
  "run [CallExecute (Some example_request), Go 0, Go 0, Go 0, Go 0, Go 0] example_new =
     Some example_closed"
  by (simp add: example_defs step_defs)

lemma example_run_aborted:
  "run [CallExecute (Some example_request), CallAbort, Go 0, Go 0, Go 0, Go 0, Go 0, Go 0]
     example_new = Some example_aborted"
  by (simp add: example_defs step_defs)

lemma example_quiescent: "quiescent example_new"
  by (simp add: quiescent_def example_defs)

section \<open>The claims\<close>

text \<open>
  The claims about a run are stated for a run under the contract of the scheduler:
  \<open>Execute\<close> is called when no run is outstanding (\<open>quiescent\<close>), and until the run is
  over the driver calls neither \<open>Execute\<close> nor \<open>Reset\<close> (\<open>during_run\<close>); the goroutines
  and the other calls interleave in any order.
\<close>

text \<open>
  C1. After \<open>Execute\<close> has stored a request and installed the cancel function,
  \<open>AbortIfNeeded(h)\<close> waits for the mutex, and then returns true and calls the cancel
  function exactly when \<open>h\<close> differs from the stored hash or the abort rate fires
  (\<open>abortRate > 0\<close> and the random number below it); otherwise it returns false and
  leaves the world as it is.
\<close>

theorem AbortIfNeeded_cancels_iff_mismatch:
  assumes "request w = Some rq" and "cancelFunc w = Some c"
  shows "AbortIfNeeded OE h r w =
     (if mtx w \<noteq> None then Blocks w
      else if Hash rq \<noteq> h \<or> (0 < abortRate w \<and> r < abortRate w)
           then Returns True (cancel c w)
           else Returns False w)"
  using assms by (rule AbortIfNeeded_OE)

theorem AbortIfNeeded_cancels_iff_mismatch_witness:
  "request example_started = Some (snapshot example_request) \<and>
   cancelFunc example_started = Some 0 \<and>
   AbortIfNeeded OE [0xCD] 50 example_started = Returns True (cancel 0 example_started) \<and>
   ctxs (cancel 0 example_started) = [True] \<and>
   AbortIfNeeded OE [0xAB] 50 example_started = Returns False example_started \<and>
   AbortIfNeeded OE [0xAB] 50 (WithAbortRate 51 example_started) =
     Returns True (cancel 0 (WithAbortRate 51 example_started)) \<and>
   AbortIfNeeded OE [0xAB] 50 (WithAbortRate 50 example_started) =
     Returns False (WithAbortRate 50 example_started)"
proof -
  have 1: "request example_started = Some (snapshot example_request)"
    and 2: "cancelFunc example_started = Some 0"
    by (simp_all add: example_started_def)
  have 3: "request (WithAbortRate k example_started) = Some (snapshot example_request)"
    and 4: "cancelFunc (WithAbortRate k example_started) = Some 0" for k
    by (simp_all add: example_started_def WithAbortRate_def)
  from AbortIfNeeded_cancels_iff_mismatch [OF 1 2, of "[0xCD]" 50]
    AbortIfNeeded_cancels_iff_mismatch [OF 1 2, of "[0xAB]" 50]
    AbortIfNeeded_cancels_iff_mismatch [OF 3 [of 51] 4 [of 51], of "[0xAB]" 50]
    AbortIfNeeded_cancels_iff_mismatch [OF 3 [of 50] 4 [of 50], of "[0xAB]" 50]
    1 2
  show ?thesis
    by (simp add: example_started_def snapshot_def example_request_def cancel_def WithAbortRate_def)
qed

text \<open>
  C2. In every world of a run, \<open>Abort\<close> calls the cancel function of the run and then
  receives from its stop channel: it returns if the channel is closed and is suspended,
  with the context cancelled, if not. The channel is closed exactly when the goroutine
  stands after its \<open>close\<close>, and then the response and the error are stored: \<open>Abort\<close>
  does not return while the goroutine has still to store its result. Once the goroutine
  has done its remaining steps the receive returns.
\<close>

theorem Abort_cancels_and_waits:
  assumes "quiescent w0" and "finalizeBlockFunc w0 = Some f"
    and "\<forall>e \<in> set es. during_run e"
    and "run (CallExecute (Some req) # es) w0 = Some w"
  shows "\<exists>c ch. cancelFunc w = Some c \<and> stopCh w = Some ch \<and>
     Abort OE w = (if chans w ! ch then Returns () (cancel c w) else Blocks (cancel c w)) \<and>
     ctxs (cancel c w) ! c \<and>
     (chans w ! ch \<longleftrightarrow> g_pc (goroutines w ! length (goroutines w0)) = Closed
                        \<or> g_pc (goroutines w ! length (goroutines w0)) = Finished) \<and>
     (chans w ! ch \<longrightarrow> stored f (snapshot req) w) \<and>
     (\<exists>w1. run (replicate 6 (Go (length (goroutines w0)))) (cancel c w) = Some w1 \<and>
           recv_stopCh w1 = Returns () w1)"
proof -
  let ?n = "length (goroutines w0)" and ?c = "length (ctxs w0)" and ?ch = "length (chans w0)"
  have r: "run_state f (snapshot req) ?n ?c ?ch w"
    using assms by (rule run_Execute)
  then have f: "cancelFunc w = Some ?c" "stopCh w = Some ?ch" "?c < length (ctxs w)"
    by (simp_all add: run_state_def)
  have a: "Abort OE w = (if chans w ! ?ch then Returns () (cancel ?c w) else Blocks (cancel ?c w))"
    using f by (simp add: Abort_OE recv_stopCh_def cancel_def)
  have c: "ctxs (cancel ?c w) ! ?c"
    using f by (simp add: cancel_def)
  have rc: "run_state f (snapshot req) ?n ?c ?ch (cancel ?c w)"
    using r by (rule run_state_cancel)
  from run_state_finishes [OF rc, of 6] obtain w1 where
    w1: "run (replicate 6 (Go ?n)) (cancel ?c w) = Some w1" "g_pc (goroutines w1 ! ?n) = Finished"
    by auto
  have "\<forall>e \<in> set (replicate 6 (Go ?n) :: ('a, 'b, 'c) event list). during_run e"
    by simp
  with rc have r1: "run_state f (snapshot req) ?n ?c ?ch w1"
    using w1(1) by (rule run_state_run)
  with w1(2) have "recv_stopCh w1 = Returns () w1"
    by (simp add: run_state_def recv_stopCh_def)
  with w1(1) a c f run_state_closed_iff [OF r] run_state_closed_stored [OF r]
  show ?thesis by auto
qed

theorem Abort_cancels_and_waits_witness:
  "quiescent example_new \<and> finalizeBlockFunc example_new = Some example_finalize \<and>
   run (CallExecute (Some example_request) # [Go 0]) example_new = Some example_finalized \<and>
   Abort OE example_finalized = Blocks (cancel 0 example_finalized) \<and>
   ctxs (cancel 0 example_finalized) ! 0 \<and>
   run (CallExecute (Some example_request) # [Go 0, Go 0, Go 0, Go 0, Go 0]) example_new =
     Some example_closed \<and>
   Abort OE example_closed = Returns () (cancel 0 example_closed) \<and>
   g_pc (goroutines example_closed ! 0) = Closed \<and>
   stored example_finalize (snapshot example_request) example_closed"
proof -
  have f: "finalizeBlockFunc example_new = Some example_finalize"
    by (simp add: example_defs)
  have d1: "\<forall>e \<in> set [Go 0 :: (nat, nat, nat) event]. during_run e"
    and d2: "\<forall>e \<in> set [Go 0, Go 0, Go 0, Go 0, Go 0 :: (nat, nat, nat) event]. during_run e"
    by simp_all
  have s: "cancelFunc example_finalized = Some 0" "stopCh example_finalized = Some 0"
    "\<not> chans example_finalized ! 0" "length (goroutines example_new) = 0"
    "cancelFunc example_closed = Some 0" "stopCh example_closed = Some 0"
    "chans example_closed ! 0"
    by (simp_all add: example_defs)
  from Abort_cancels_and_waits [OF example_quiescent f d1 example_run_finalized] s
  have 1: "Abort OE example_finalized = Blocks (cancel 0 example_finalized) \<and>
      ctxs (cancel 0 example_finalized) ! 0"
    by auto
  from Abort_cancels_and_waits [OF example_quiescent f d2 example_run_closed] s
  have 2: "Abort OE example_closed = Returns () (cancel 0 example_closed) \<and>
      stored example_finalize (snapshot example_request) example_closed"
    by auto
  have 3: "g_pc (goroutines example_closed ! 0) = Closed"
    by (simp add: example_defs)
  from 1 2 3 f example_quiescent example_run_finalized example_run_closed show ?thesis
    by simp
qed

text \<open>
  C3. In every world of a run, \<open>WaitResult\<close> is suspended while the stop channel is
  open; once it is closed, it returns the stored response and error, which are the ones
  built from a result of the finalize function on the stored request, and leaves the
  world as it is. A later call, after any events that are neither \<open>Execute\<close> nor \<open>Reset\<close>,
  returns the same pair. The channel is closed once the goroutine has done its steps.
\<close>

theorem WaitResult_returns_captured:
  assumes "quiescent w0" and "finalizeBlockFunc w0 = Some f"
    and "\<forall>e \<in> set es. during_run e"
    and "run (CallExecute (Some req) # es) w0 = Some w"
  shows "\<exists>ch. stopCh w = Some ch \<and>
     WaitResult OE w = (if chans w ! ch then Returns (response w, err w) w else Blocks w) \<and>
     (chans w ! ch \<longrightarrow>
        (\<exists>b. response w = Some (wrap (f b (Some (snapshot req)))) \<and>
             err w = err_of (f b (Some (snapshot req))))) \<and>
     (\<forall>es2 w2. chans w ! ch \<and> (\<forall>e \<in> set es2. during_run e) \<and> run es2 w = Some w2 \<longrightarrow>
        WaitResult OE w2 = Returns (response w, err w) w2) \<and>
     (\<exists>w1. run (replicate 6 (Go (length (goroutines w0)))) w = Some w1 \<and>
           WaitResult OE w1 = Returns (response w1, err w1) w1)"
proof -
  let ?n = "length (goroutines w0)" and ?c = "length (ctxs w0)" and ?ch = "length (chans w0)"
  have r: "run_state f (snapshot req) ?n ?c ?ch w"
    using assms by (rule run_Execute)
  then have s: "stopCh w = Some ?ch"
    by (simp add: run_state_def)
  then have a: "WaitResult OE w = (if chans w ! ?ch then Returns (response w, err w) w else Blocks w)"
    by (simp add: WaitResult_OE)
  have b: "chans w ! ?ch \<longrightarrow>
        (\<exists>b. response w = Some (wrap (f b (Some (snapshot req)))) \<and>
             err w = err_of (f b (Some (snapshot req))))"
    using run_state_closed_stored [OF r] by (simp add: stored_def)
  have c: "WaitResult OE w2 = Returns (response w, err w) w2"
    if "chans w ! ?ch" and "\<forall>e \<in> set es2. during_run e" and "run es2 w = Some w2" for es2 w2
  proof -
    from r that(2,3) have "run_state f (snapshot req) ?n ?c ?ch w2"
      by (rule run_state_run)
    then have "stopCh w2 = Some ?ch"
      by (simp add: run_state_def)
    with closed_result_run [OF r that] show ?thesis
      by (simp add: WaitResult_OE)
  qed
  from run_state_finishes [OF r, of 6] obtain w1 where
    w1: "run (replicate 6 (Go ?n)) w = Some w1" "g_pc (goroutines w1 ! ?n) = Finished"
    by auto
  have "\<forall>e \<in> set (replicate 6 (Go ?n) :: ('a, 'b, 'c) event list). during_run e"
    by simp
  with r have "run_state f (snapshot req) ?n ?c ?ch w1"
    using w1(1) by (rule run_state_run)
  with w1(2) have "WaitResult OE w1 = Returns (response w1, err w1) w1"
    by (simp add: run_state_def WaitResult_OE)
  with w1(1) s a b c show ?thesis
    by blast
qed

theorem WaitResult_returns_captured_witness:
  "quiescent example_new \<and> finalizeBlockFunc example_new = Some example_finalize \<and>
   run (CallExecute (Some example_request) # [Go 0]) example_new = Some example_finalized \<and>
   WaitResult OE example_finalized = Blocks example_finalized \<and>
   run (CallExecute (Some example_request) # [Go 0, Go 0, Go 0, Go 0, Go 0]) example_new =
     Some example_closed \<and>
   WaitResult OE example_closed =
     Returns (Some \<lparr>Resp = Some 1, StateChanges = 2, DecodedTxs = [3]\<rparr>, None) example_closed \<and>
   run [Go 0, CallInitialized] example_closed = Some (example_closed\<lparr>mtx := None,
     goroutines := [\<lparr>g_ctx = 0, g_pc = Finished\<rparr>]\<rparr>) \<and>
   WaitResult OE (example_closed\<lparr>mtx := None, goroutines := [\<lparr>g_ctx = 0, g_pc = Finished\<rparr>]\<rparr>) =
     Returns (Some \<lparr>Resp = Some 1, StateChanges = 2, DecodedTxs = [3]\<rparr>, None)
       (example_closed\<lparr>mtx := None, goroutines := [\<lparr>g_ctx = 0, g_pc = Finished\<rparr>]\<rparr>)"
proof -
  have f: "finalizeBlockFunc example_new = Some example_finalize"
    by (simp add: example_defs)
  have d1: "\<forall>e \<in> set [Go 0 :: (nat, nat, nat) event]. during_run e"
    and d2: "\<forall>e \<in> set [Go 0, Go 0, Go 0, Go 0, Go 0 :: (nat, nat, nat) event]. during_run e"
    and d3: "\<forall>e \<in> set [Go 0, CallInitialized :: (nat, nat, nat) event]. during_run e"
    by simp_all
  have s: "stopCh example_finalized = Some 0" "\<not> chans example_finalized ! 0"
    "stopCh example_closed = Some 0" "chans example_closed ! 0"
    "response example_closed = Some \<lparr>Resp = Some 1, StateChanges = 2, DecodedTxs = [3]\<rparr>"
    "err example_closed = None"
    by (simp_all add: example_defs)
  have r: "run [Go 0, CallInitialized] example_closed = Some (example_closed\<lparr>mtx := None,
     goroutines := [\<lparr>g_ctx = 0, g_pc = Finished\<rparr>]\<rparr>)"
    by (simp add: example_defs step_defs)
  from WaitResult_returns_captured [OF example_quiescent f d1 example_run_finalized] s
  have 1: "WaitResult OE example_finalized = Blocks example_finalized"
    by auto
  from WaitResult_returns_captured [OF example_quiescent f d2 example_run_closed]
  obtain ch where c: "stopCh example_closed = Some ch"
    "WaitResult OE example_closed =
       (if chans example_closed ! ch then Returns (response example_closed, err example_closed) example_closed
        else Blocks example_closed)"
    "\<forall>es2 w2. chans example_closed ! ch \<and> (\<forall>e \<in> set es2. during_run e) \<and>
        run es2 example_closed = Some w2 \<longrightarrow>
        WaitResult OE w2 = Returns (response example_closed, err example_closed) w2"
    by blast
  from c(1) s have ch: "ch = 0" by simp
  from c(2) ch s have 2: "WaitResult OE example_closed =
     Returns (Some \<lparr>Resp = Some 1, StateChanges = 2, DecodedTxs = [3]\<rparr>, None) example_closed"
    by simp
  from c(3) ch s d3 r have 3: "WaitResult OE (example_closed\<lparr>mtx := None,
       goroutines := [\<lparr>g_ctx = 0, g_pc = Finished\<rparr>]\<rparr>) =
     Returns (Some \<lparr>Resp = Some 1, StateChanges = 2, DecodedTxs = [3]\<rparr>, None)
       (example_closed\<lparr>mtx := None, goroutines := [\<lparr>g_ctx = 0, g_pc = Finished\<rparr>]\<rparr>)"
    by (metis (no_types, lifting))
  from 1 2 3 r f example_quiescent example_run_finalized example_run_closed show ?thesis
    by simp
qed

text \<open>
  C4. A new scheduler (with any abort-rate options) is empty: \<open>Initialized\<close> is false and
  request, response and error are nil. \<open>Execute(req)\<close> sets the initialized flag and
  stores a request with the fields of \<open>req\<close>, its \<open>DecidedLastCommit\<close> being the
  \<open>ProposedLastCommit\<close> of \<open>req\<close>. \<open>Reset\<close> clears request, response, error and the flag.
\<close>

theorem lifecycle_of_fields:
  "Initialized OE (NewOptimisticExecution wm lg fn (map WithAbortRate rates)) =
     Returns False (NewOptimisticExecution wm lg fn (map WithAbortRate rates)) \<and>
   \<not> initialized (NewOptimisticExecution wm lg fn (map WithAbortRate rates)) \<and>
   request (NewOptimisticExecution wm lg fn (map WithAbortRate rates)) = None \<and>
   response (NewOptimisticExecution wm lg fn (map WithAbortRate rates)) = None \<and>
   err (NewOptimisticExecution wm lg fn (map WithAbortRate rates)) = None \<and>
   (mtx w = None \<longrightarrow>
      (\<exists>w1 s. Execute OE (Some req) w = Returns () w1 \<and> initialized w1 \<and>
         Initialized OE w1 = Returns True w1 \<and> request w1 = Some s \<and>
         Txs s = ProcessProposalRequest.Txs req \<and>
         Hash s = ProcessProposalRequest.Hash req \<and>
         Height s = ProcessProposalRequest.Height req \<and>
         Time s = ProcessProposalRequest.Time req \<and>
         Misbehavior s = ProcessProposalRequest.Misbehavior req \<and>
         NextValidatorsHash s = ProcessProposalRequest.NextValidatorsHash req \<and>
         ProposerAddress s = ProcessProposalRequest.ProposerAddress req \<and>
         DecidedLastCommit s = ProposedLastCommit req)) \<and>
   (mtx w = None \<longrightarrow>
      (\<exists>w2. Reset OE w = Returns () w2 \<and> request w2 = None \<and> response w2 = None \<and>
         err w2 = None \<and> \<not> initialized w2 \<and> Initialized OE w2 = Returns False w2))"
proof -
  let ?new = "NewOptimisticExecution wm lg fn (map WithAbortRate rates)"
  have 1: "Initialized OE ?new = Returns False ?new \<and> \<not> initialized ?new \<and>
      request ?new = None \<and> response ?new = None \<and> err ?new = None"
    by (simp add: New_fields Initialized_OE)
  have 2: "mtx w = None \<longrightarrow>
      (\<exists>w1 s. Execute OE (Some req) w = Returns () w1 \<and> initialized w1 \<and>
         Initialized OE w1 = Returns True w1 \<and> request w1 = Some s \<and>
         Txs s = ProcessProposalRequest.Txs req \<and>
         Hash s = ProcessProposalRequest.Hash req \<and>
         Height s = ProcessProposalRequest.Height req \<and>
         Time s = ProcessProposalRequest.Time req \<and>
         Misbehavior s = ProcessProposalRequest.Misbehavior req \<and>
         NextValidatorsHash s = ProcessProposalRequest.NextValidatorsHash req \<and>
         ProposerAddress s = ProcessProposalRequest.ProposerAddress req \<and>
         DecidedLastCommit s = ProposedLastCommit req)"
    by (simp add: Execute_free Initialized_OE snapshot_def)
  have 3: "mtx w = None \<longrightarrow>
      (\<exists>w2. Reset OE w = Returns () w2 \<and> request w2 = None \<and> response w2 = None \<and>
         err w2 = None \<and> \<not> initialized w2 \<and> Initialized OE w2 = Returns False w2)"
    by (simp add: Reset_OE Initialized_OE)
  from 1 2 3 show ?thesis by blast
qed

theorem lifecycle_of_fields_witness:
  "mtx example_new = None \<and>
   Execute OE (Some example_request) example_new = Returns () example_started \<and>
   initialized example_started \<and>
   request example_started =
     Some \<lparr>Txs = [[1, 2]], DecidedLastCommit = 3, Misbehavior = [4], Hash = [0xAB],
           Height = 5, Time = 6, NextValidatorsHash = [7], ProposerAddress = [8]\<rparr> \<and>
   mtx example_aborted = None \<and> response example_aborted \<noteq> None \<and>
   Reset OE example_aborted =
     Returns () (example_aborted\<lparr>request := None, response := None, err := None,
                                initialized := False\<rparr>)"
proof -
  have 1: "mtx example_new = None" and 2: "mtx example_aborted = None"
    by (simp_all add: example_defs)
  have 3: "example_new = NewOptimisticExecution (\<lambda>l. l @ '' module=oe'') ''log''
      (Some example_finalize) (map WithAbortRate [])"
    by (simp add: example_new_def)
  from lifecycle_of_fields [of "\<lambda>l. l @ '' module=oe''" "''log''" "Some example_finalize" "[]"
      example_new example_request]
    lifecycle_of_fields [of "\<lambda>l. l @ '' module=oe''" "''log''" "Some example_finalize" "[]"
      example_aborted example_request]
    1 2 3
  show ?thesis
    by (simp add: example_defs step_defs)
qed

text \<open>
  C5, as stated (\<open>Reset\<close> refuses to clear the fields while a run is outstanding), does
  not hold: right after \<open>Execute\<close>, with the stop channel open and the goroutine at its
  start, \<open>Reset\<close> returns and has cleared the request and the flag; the goroutine of that
  run then panics at its debug log, which dereferences the request.
\<close>

theorem Reset_during_run_counterexample:
  "run [CallExecute (Some example_request)] example_new = Some example_started \<and>
   stopCh example_started = Some 0 \<and> \<not> chans example_started ! 0 \<and>
   g_pc (goroutines example_started ! 0) = Started \<and>
   initialized example_started \<and> request example_started \<noteq> None \<and>
   Reset OE example_started =
     Returns () (example_started\<lparr>request := None, response := None, err := None,
                                initialized := False\<rparr>) \<and>
   request (example_started\<lparr>request := None, response := None, err := None,
                                initialized := False\<rparr>) = None \<and>
   \<not> initialized (example_started\<lparr>request := None, response := None, err := None,
                                initialized := False\<rparr>) \<and>
   run [CallExecute (Some example_request), CallReset, Go 0, Go 0, Go 0] example_new = None"
  by (simp add: example_defs step_defs)

text \<open>
  C5, amended. \<open>Reset\<close> looks neither at the stop channel nor at the goroutines: in every
  world, as soon as the mutex is free it clears request, response, error and the
  initialized flag and returns; it waits only while the mutex is held.
\<close>

theorem Reset_clears_whenever_lock_is_free:
  "Reset OE w =
     (if mtx w = None
      then Returns () (w\<lparr>request := None, response := None, err := None, initialized := False\<rparr>)
      else Blocks w)"
  by (rule Reset_OE)

text \<open>
  C6. \<open>Abort\<close> with no cancel function installed returns at once and changes nothing. A
  second \<open>Abort\<close> right after one that has returned comes back at once and leaves the
  world of the first. \<open>Abort\<close> never panics. In every world of a run the first \<open>Abort\<close>
  returns or is suspended with the context cancelled; after the remaining steps of the
  goroutine its receive returns, and a second \<open>Abort\<close> then returns at once and changes
  nothing.
\<close>

theorem Abort_idempotent:
  "(cancelFunc w = None \<longrightarrow> Abort OE w = Returns () w) \<and>
   (Abort oe w = Returns () w1 \<longrightarrow> Abort oe w1 = Returns () w1) \<and>
   Abort oe w \<noteq> Panics \<and>
   (quiescent w0 \<and> finalizeBlockFunc w0 = Some f \<and> (\<forall>e \<in> set es. during_run e) \<and>
    run (CallExecute (Some req) # es) w0 = Some w2 \<longrightarrow>
      (\<exists>c w3. (Abort OE w2 = Returns () (cancel c w2) \<or> Abort OE w2 = Blocks (cancel c w2)) \<and>
         run (replicate 6 (Go (length (goroutines w0)))) (cancel c w2) = Some w3 \<and>
         recv_stopCh w3 = Returns () w3 \<and> Abort OE w3 = Returns () w3))"
proof -
  have 1: "cancelFunc w = None \<longrightarrow> Abort OE w = Returns () w"
    by (simp add: Abort_def)
  have 2: "Abort oe w = Returns () w1 \<longrightarrow> Abort oe w1 = Returns () w1"
    by (cases oe)
      (auto simp add: Abort_def cancel_def recv_stopCh_def split: option.splits if_splits)
  have 3: "Abort oe w \<noteq> Panics"
    by (cases oe)
      (auto simp add: Abort_def recv_stopCh_def split: option.splits)
  have 4: "\<exists>c w3. (Abort OE w2 = Returns () (cancel c w2) \<or> Abort OE w2 = Blocks (cancel c w2)) \<and>
         run (replicate 6 (Go (length (goroutines w0)))) (cancel c w2) = Some w3 \<and>
         recv_stopCh w3 = Returns () w3 \<and> Abort OE w3 = Returns () w3"
    if q: "quiescent w0" and f: "finalizeBlockFunc w0 = Some f"
      and d: "\<forall>e \<in> set es. during_run e"
      and r: "run (CallExecute (Some req) # es) w0 = Some w2"
  proof -
    let ?n = "length (goroutines w0)" and ?c = "length (ctxs w0)" and ?ch = "length (chans w0)"
    have s: "run_state f (snapshot req) ?n ?c ?ch w2"
      using q f d r by (rule run_Execute)
    then have c: "cancelFunc w2 = Some ?c" "?c < length (ctxs w2)"
      by (simp_all add: run_state_def)
    with recv_stopCh_cases [of "cancel ?c w2"]
    have a: "Abort OE w2 = Returns () (cancel ?c w2) \<or> Abort OE w2 = Blocks (cancel ?c w2)"
      by (auto simp add: Abort_OE)
    have sc: "run_state f (snapshot req) ?n ?c ?ch (cancel ?c w2)"
      using s by (rule run_state_cancel)
    from run_state_finishes [OF sc, of 6] obtain w3 where
      w3: "run (replicate 6 (Go ?n)) (cancel ?c w2) = Some w3" "g_pc (goroutines w3 ! ?n) = Finished"
      by auto
    have s3: "run_state f (snapshot req) ?n ?c ?ch w3"
      by (rule run_state_run [OF sc _ w3(1)]) simp
    with w3(2) have rv: "recv_stopCh w3 = Returns () w3"
      by (simp add: run_state_def recv_stopCh_def)
    from run_Go_ctxs [OF w3(1)] c have "ctxs w3 ! ?c" "?c < length (ctxs w3)"
      by (simp_all add: cancel_def)
    then have "cancel ?c w3 = w3"
      by (simp add: cancel_same)
    with s3 rv have "Abort OE w3 = Returns () w3"
      by (simp add: Abort_OE run_state_def)
    with a w3(1) rv show ?thesis by blast
  qed
  from 1 2 3 4 show ?thesis by blast
qed

theorem Abort_idempotent_witness:
  "cancelFunc example_new = None \<and> Abort OE example_new = Returns () example_new \<and>
   Abort OE example_closed = Returns () (cancel 0 example_closed) \<and>
   Abort OE (cancel 0 example_closed) = Returns () (cancel 0 example_closed) \<and>
   quiescent example_new \<and> finalizeBlockFunc example_new = Some example_finalize \<and>
   run (CallExecute (Some example_request) # []) example_new = Some example_started \<and>
   Abort OE example_started = Blocks (cancel 0 example_started) \<and>
   run (replicate 6 (Go 0)) (cancel 0 example_started) = Some example_aborted \<and>
   Abort OE example_aborted = Returns () example_aborted"
proof -
  have 1: "cancelFunc example_new = None"
    and f: "finalizeBlockFunc example_new = Some example_finalize"
    by (simp_all add: example_defs)
  have 2: "Abort OE example_closed = Returns () (cancel 0 example_closed)"
    and 3: "Abort OE example_started = Blocks (cancel 0 example_started)"
    by (simp_all add: example_defs step_defs)
  have d: "\<forall>e \<in> set ([] :: (nat, nat, nat) event list). during_run e"
    by simp
  have "replicate 6 (Go 0 :: (nat, nat, nat) event) = [Go 0, Go 0, Go 0, Go 0, Go 0, Go 0]"
    by (simp add: numeral_eq_Suc)
  then have 4: "run (replicate 6 (Go 0)) (cancel 0 example_started) = Some example_aborted"
    by (simp add: example_defs step_defs)
  from Abort_idempotent [of example_new OE example_new example_new example_finalize "[]"
      example_request example_started] 1
  have a: "Abort OE example_new = Returns () example_new"
    by blast
  from Abort_idempotent [of example_closed OE "cancel 0 example_closed" example_new
      example_finalize "[]" example_request example_started] 2
  have b: "Abort OE (cancel 0 example_closed) = Returns () (cancel 0 example_closed)"
    by blast
  from Abort_idempotent [of example_new OE example_new example_new example_finalize "[]"
      example_request example_started] example_quiescent f d example_run_started
  obtain c w3 where
    w3: "Abort OE example_started = Returns () (cancel c example_started) \<or>
         Abort OE example_started = Blocks (cancel c example_started)"
      "run (replicate 6 (Go (length (goroutines example_new)))) (cancel c example_started) = Some w3"
      "Abort OE w3 = Returns () w3"
    by blast
  have "cancel c example_started = cancel 0 example_started \<longrightarrow> c = 0"
    by (cases c) (auto simp add: example_defs cancel_def)
  with w3(1) 3 have "c = 0" by auto
  moreover have "length (goroutines example_new) = 0"
    by (simp add: example_defs)
  ultimately have "w3 = example_aborted"
    using w3(2) 4 by simp
  with w3(3) have e: "Abort OE example_aborted = Returns () example_aborted"
    by simp
  from 1 2 3 4 a b e f example_quiescent example_run_started show ?thesis
    by simp
qed




text \<open>
  C8. On the nil receiver \<open>Initialized\<close> returns false, \<open>AbortIfNeeded\<close> returns false for
  every hash, and \<open>Abort\<close> returns; the world is unchanged and nothing panics.
\<close>

theorem nil_receiver_is_safe:
  "Initialized NilOE w = Returns False w \<and>
   AbortIfNeeded NilOE h r w = Returns False w \<and>
   Abort NilOE w = Returns () w"
  by (simp add: Initialized_def AbortIfNeeded_def Abort_def)

text \<open>
  C9. \<open>Reset\<close> changes the request, the response, the error and the initialized flag
  only; the cancel function, the stop channel, the finalize function, the logger, the
  abort rate, the channels, the contexts and the goroutines stay. So an \<open>Abort\<close> after
  \<open>Reset\<close> calls the cancel function of the previous run and receives from its channel.
\<close>

theorem Reset_frame:
  assumes "Reset OE w = Returns () w1"
  shows "w1 = w\<lparr>request := None, response := None, err := None, initialized := False\<rparr> \<and>
     cancelFunc w1 = cancelFunc w \<and> stopCh w1 = stopCh w \<and>
     finalizeBlockFunc w1 = finalizeBlockFunc w \<and> logger w1 = logger w \<and>
     abortRate w1 = abortRate w \<and> mtx w1 = mtx w \<and>
     chans w1 = chans w \<and> ctxs w1 = ctxs w \<and> goroutines w1 = goroutines w \<and>
     Abort OE w1 =
       (case cancelFunc w of
          None \<Rightarrow> Returns () w1
        | Some c \<Rightarrow>
            (case stopCh w of
               None \<Rightarrow> Blocks (cancel c w1)
             | Some ch \<Rightarrow>
                 if chans w ! ch then Returns () (cancel c w1) else Blocks (cancel c w1)))"
  using assms
  by (auto simp add: Reset_OE Abort_OE recv_stopCh_def cancel_def split: if_splits option.splits)

theorem Reset_frame_witness:
  "Reset OE example_started =
     Returns () (example_started\<lparr>request := None, response := None, err := None,
                                initialized := False\<rparr>) \<and>
   cancelFunc (example_started\<lparr>request := None, response := None, err := None,
                                initialized := False\<rparr>) = Some 0 \<and>
   stopCh (example_started\<lparr>request := None, response := None, err := None,
                                initialized := False\<rparr>) = Some 0 \<and>
   Abort OE (example_started\<lparr>request := None, response := None, err := None,
                                initialized := False\<rparr>) =
     Blocks (cancel 0 (example_started\<lparr>request := None, response := None, err := None,
                                initialized := False\<rparr>))"
proof -
  have 1: "Reset OE example_started =
     Returns () (example_started\<lparr>request := None, response := None, err := None,
                                initialized := False\<rparr>)"
    by (simp add: example_defs step_defs)
  from Reset_frame [OF 1] 1 show ?thesis
    by (simp add: example_started_def)
qed

text \<open>
  C10. In every world of a run: once the goroutine has assigned its result, the stored
  response is not nil, and whatever \<open>WaitResult\<close> returns is a response that is not nil,
  wrapping the three outputs of the finalize function, together with the error of the
  same result, nil or not.
\<close>

theorem completed_response_not_nil:
  assumes "quiescent w0" and "finalizeBlockFunc w0 = Some f"
    and "\<forall>e \<in> set es. during_run e"
    and "run (CallExecute (Some req) # es) w0 = Some w"
  shows "(g_pc (goroutines w ! length (goroutines w0)) = Stored
          \<or> g_pc (goroutines w ! length (goroutines w0)) = Closed
          \<or> g_pc (goroutines w ! length (goroutines w0)) = Finished \<longrightarrow>
            response w \<noteq> None) \<and>
     (\<forall>rsp e w1. WaitResult OE w = Returns (rsp, e) w1 \<longrightarrow>
        (\<exists>b resp stateChanges decodedTxs.
           f b (Some (snapshot req)) = (resp, stateChanges, decodedTxs, e) \<and>
           rsp = Some \<lparr>Resp = resp, StateChanges = stateChanges, DecodedTxs = decodedTxs\<rparr>))"
proof -
  let ?n = "length (goroutines w0)" and ?c = "length (ctxs w0)" and ?ch = "length (chans w0)"
  have r: "run_state f (snapshot req) ?n ?c ?ch w"
    using assms by (rule run_Execute)
  then have 1: "g_pc (goroutines w ! ?n) = Stored \<or> g_pc (goroutines w ! ?n) = Closed
      \<or> g_pc (goroutines w ! ?n) = Finished \<longrightarrow> response w \<noteq> None"
    by (auto simp add: run_state_def stored_def)
  have 2: "\<exists>b resp stateChanges decodedTxs.
           f b (Some (snapshot req)) = (resp, stateChanges, decodedTxs, e) \<and>
           rsp = Some \<lparr>Resp = resp, StateChanges = stateChanges, DecodedTxs = decodedTxs\<rparr>"
    if "WaitResult OE w = Returns (rsp, e) w1" for rsp e w1
  proof -
    from r have s: "stopCh w = Some ?ch"
      by (simp add: run_state_def)
    with that have cl: "chans w ! ?ch" and eq: "rsp = response w" "e = err w"
      by (auto simp add: WaitResult_OE split: if_splits)
    from run_state_closed_stored [OF r cl] obtain b where
      b: "response w = Some (wrap (f b (Some (snapshot req))))" "err w = err_of (f b (Some (snapshot req)))"
      by (auto simp add: stored_def)
    obtain resp stateChanges decodedTxs e' where
      f: "f b (Some (snapshot req)) = (resp, stateChanges, decodedTxs, e')"
      by (cases "f b (Some (snapshot req))") auto
    with b eq show ?thesis
      by (auto simp add: wrap_def err_of_def)
  qed
  from 1 2 show ?thesis by blast
qed

theorem completed_response_not_nil_witness:
  "quiescent example_new \<and> finalizeBlockFunc example_new = Some example_finalize \<and>
   run (CallExecute (Some example_request) # [CallAbort, Go 0, Go 0, Go 0, Go 0, Go 0, Go 0])
     example_new = Some example_aborted \<and>
   WaitResult OE example_aborted =
     Returns (Some \<lparr>Resp = None, StateChanges = 0, DecodedTxs = []\<rparr>, Some ''context canceled'')
       example_aborted \<and>
   example_finalize True (Some (snapshot example_request)) =
     (None, 0, [], Some ''context canceled'') \<and>
   response example_aborted \<noteq> None \<and> err example_aborted \<noteq> None"
proof -
  have f: "finalizeBlockFunc example_new = Some example_finalize"
    by (simp add: example_defs)
  have d: "\<forall>e \<in> set [CallAbort, Go 0, Go 0, Go 0, Go 0, Go 0, Go 0 :: (nat, nat, nat) event].
      during_run e"
    by simp
  have w: "WaitResult OE example_aborted =
     Returns (Some \<lparr>Resp = None, StateChanges = 0, DecodedTxs = []\<rparr>, Some ''context canceled'')
       example_aborted"
    by (simp add: example_defs step_defs)
  have p: "g_pc (goroutines example_aborted ! length (goroutines example_new)) = Finished"
    by (simp add: example_defs)
  from completed_response_not_nil [OF example_quiescent f d example_run_aborted] p
  have 1: "response example_aborted \<noteq> None"
    by blast
  have 2: "err example_aborted \<noteq> None"
    and 3: "example_finalize True (Some (snapshot example_request)) =
     (None, 0, [], Some ''context canceled'')"
    by (simp_all add: example_defs)
  from 1 2 3 w f example_quiescent example_run_aborted show ?thesis
    by simp
qed

end
